theory Spec2Isabelle
  imports Main "HOL-Library.Word"
begin

section \<open>The room coordinator of dsns-calopoly-server (app/index.js)\<close>

text \<open>
  The server keeps one object \<open>rooms\<close> (room identifier to room) and answers eight
  events per connection: \<open>join-room\<close>, \<open>update-players\<close>, \<open>update-turn\<close>,
  \<open>update-dice\<close>, \<open>start-state\<close>, \<open>chat\<close>, the transport's \<open>disconnect\<close>, and the
  callback of the 60 second timer that \<open>disconnect\<close> schedules.  Each handler is a
  function from the state before to the state after and the list of messages it emits.

  Conventions of the embedding:
  \<^item> a JavaScript string is the list of its UTF-16 code units, so \<open>length\<close> is
    \<open>.length\<close>;
  \<^item> \<open>JSON.stringify v\<close> is represented by \<open>v\<close> itself under a constructor of
    \<open>payload\<close>; a message forwarded as received is \<open>Raw\<close>;
  \<^item> \<open>JSON.parse\<close> belongs to the runtime and is a parameter \<open>parse\<close> of the handlers
    that call it: \<open>None\<close> is a thrown SyntaxError;
  \<^item> values have the shapes of the interfaces \<open>Player\<close>, \<open>Property\<close> and
    \<open>GameState\<close> declared beside the server: a room identifier is a string, a player
    claim is a \<open>Player\<close> object or a falsy value, an array payload is an array of
    \<open>Player\<close> objects;
  \<^item> \<open>console.log\<close> lines are not part of the model.
\<close>

subsection \<open>Strings\<close>

type_synonym jsstring = "16 word list"

definition ascii :: "string \<Rightarrow> jsstring" where
  "ascii s = map (\<lambda>c. of_nat (of_char c)) s"

subsection \<open>Data: Property, Player, GameState\<close>

datatype category = Attraction | Property | Utility | Special | Tax

record property =
  name_property :: jsstring
  type_property :: category
  price :: "int option"
  houses :: "int option"
  mortgaged :: "bool option"
  hotel :: "bool option"
  color :: "jsstring option"
  ownerID :: "jsstring option"
  rent :: "int list option"

text \<open>An optional field that is absent reads as \<open>undefined\<close>: \<open>None\<close>.\<close>

record player =
  position :: int
  name :: jsstring
  symbol :: jsstring
  money :: int
  properties :: "property list"
  recentDiff :: int
  id_player :: jsstring
  socketID :: jsstring
  roomID :: "jsstring option"
  disconnected :: "bool option"

record room =
  players :: "player list"
  currentTurn :: int
  dice :: "int \<times> int"
  started :: bool
  chat :: "jsstring list"

text \<open>The object literal of line 41.\<close>

definition empty_room :: room where
  "empty_room = \<lparr>players = [], currentTurn = 0, dice = (-1, -1), started = False, chat = []\<rparr>"

subsection \<open>The process state\<close>

text \<open>
  A pending timer is the closure of lines 112-124: it holds the socket's id, the room
  \<^emph>\<open>object\<close> found by the loop (an address, not a key: the closure keeps the object also
  after \<open>delete rooms[roomID]\<close>), the key \<open>roomID\<close>, and the player object, of which the
  callback reads only \<open>name\<close>; no statement of the server assigns \<open>name\<close> of an object,
  so the name at scheduling time is the name at firing time.
\<close>

record timer =
  t_socket :: jsstring
  t_room :: nat
  t_roomID :: jsstring
  t_name :: jsstring

text \<open>
  \<open>rooms\<close> lists the own properties of the object \<open>rooms\<close> in creation order, each with
  the address of its room object; \<open>heap\<close> holds the room objects; \<open>timers\<close> is the queue
  of pending timers (all have the same delay, so they fire in the order scheduled);
  \<open>subs\<close> is the transport's membership relation written by \<open>socket.join\<close>.  The table
  \<open>disconnectTimers\<close> is only ever written, never read, and is left out.
\<close>

record state =
  rooms :: "(jsstring \<times> nat) list"
  heap :: "nat \<Rightarrow> room"
  next_addr :: nat
  timers :: "timer list"
  subs :: "(jsstring \<times> jsstring) set"

definition init :: state where
  "init = \<lparr>rooms = [], heap = (\<lambda>_. empty_room), next_addr = 0, timers = [], subs = {}\<rparr>"

subsection \<open>Messages\<close>

datatype target = To_room jsstring | To_socket jsstring

datatype payload =
    Flag bool
  | Raw jsstring
  | Json_room room
  | Json_players "player list"
  | Json_turn int
  | Json_dice "int \<times> int"
  | Json_chat "jsstring list"

datatype emission = Emit target string payload

datatype json = J_array "player list" | J_boolean bool | J_other

datatype chat_msg = Str jsstring | Non_string

text \<open>
  \<open>Type_error\<close>: the handler throws (a property of \<open>undefined\<close> is read).
  \<open>Builtin_written\<close>: the handler assigns a property of an object of the runtime, after
  which the data model above no longer describes the process; the model stops there.
\<close>

datatype failure = Type_error | Builtin_written

type_synonym outcome = "failure + state \<times> emission list"

subsection \<open>Reading \<open>rooms[roomID]\<close>\<close>

text \<open>
  \<open>rooms\<close> is created by \<open>{}\<close>, so a key that is not an own property is looked up in
  \<open>Object.prototype\<close>, whose twelve properties are all truthy.
\<close>

definition object_prototype_keys :: "jsstring list" where
  "object_prototype_keys = map ascii
     [''constructor'', ''__defineGetter__'', ''__defineSetter__'', ''hasOwnProperty'',
      ''__lookupGetter__'', ''__lookupSetter__'', ''isPrototypeOf'', ''propertyIsEnumerable'',
      ''toString'', ''valueOf'', ''__proto__'', ''toLocaleString'']"

datatype slot = Absent | Builtin | Room nat

definition rooms_get :: "state \<Rightarrow> jsstring \<Rightarrow> slot" where
  "rooms_get s rid =
     (case map_of (rooms s) rid of
        Some a \<Rightarrow> Room a
      | None \<Rightarrow> if rid \<in> set object_prototype_keys then Builtin else Absent)"

text \<open>\<open>delete rooms[roomID]\<close>.\<close>

definition rooms_delete :: "jsstring \<Rightarrow> state \<Rightarrow> state" where
  "rooms_delete rid s = s\<lparr>rooms := filter (\<lambda>(k, _). k \<noteq> rid) (rooms s)\<rparr>"

text \<open>
  \<open>for (const roomID in rooms)\<close> visits the keys that are array indices (canonical
  decimal numerals below \<open>2^32 - 1\<close>) in ascending order, then the other keys in
  creation order.
\<close>

definition digit :: "16 word \<Rightarrow> bool" where
  "digit c = (0x30 \<le> c \<and> c \<le> 0x39)"

definition decimal :: "jsstring \<Rightarrow> nat" where
  "decimal k = foldl (\<lambda>n c. 10 * n + (unat c - 48)) 0 k"

definition array_index :: "jsstring \<Rightarrow> nat option" where
  "array_index k =
     (if k \<noteq> [] \<and> list_all digit k \<and> (length k = 1 \<or> hd k \<noteq> 0x30) \<and> decimal k < 2 ^ 32 - 1
      then Some (decimal k) else None)"

definition for_in_order :: "(jsstring \<times> nat) list \<Rightarrow> (jsstring \<times> nat) list" where
  "for_in_order rs =
     sort_key (\<lambda>(k, _). case array_index k of Some n \<Rightarrow> n | None \<Rightarrow> 0)
       (filter (\<lambda>(k, _). array_index k \<noteq> None) rs)
     @ filter (\<lambda>(k, _). array_index k = None) rs"

subsection \<open>Array helpers\<close>

fun findIndex :: "('a \<Rightarrow> bool) \<Rightarrow> 'a list \<Rightarrow> nat option" where
  "findIndex P [] = None"
| "findIndex P (x # xs) =
     (if P x then Some 0 else case findIndex P xs of None \<Rightarrow> None | Some i \<Rightarrow> Some (Suc i))"

text \<open>\<open>xs.splice(i, 1)\<close>.\<close>

definition splice1 :: "nat \<Rightarrow> 'a list \<Rightarrow> 'a list" where
  "splice1 i xs = take i xs @ drop (Suc i) xs"

subsection \<open>join-room (lines 29-60)\<close>

definition possibleSymbols :: "jsstring list" where
  "possibleSymbols =
     [[0xD83D, 0xDC07], [0xD83D, 0xDC04], [0xD83D, 0xDC15], [0xD83D, 0xDC08],
      [0xD83D, 0xDC13], [0xD83D, 0xDC16], [0xD83D, 0xDC10], [0xD83D, 0xDC0E],
      [0xD83D, 0xDC02], [0xD83D, 0xDC11], [0xD83D, 0xDC29]]"

text \<open>Line 35: some stored player has the claim's name and another id.\<close>

definition name_taken :: "player \<Rightarrow> player list \<Rightarrow> bool" where
  "name_taken claim ps =
     (find (\<lambda>p. name p = name claim \<and> id_player p \<noteq> id_player claim) ps \<noteq> None)"

text \<open>Lines 40-42, returning the state and the address of \<open>rooms[roomID]\<close>.\<close>

definition get_or_create :: "jsstring \<Rightarrow> state \<Rightarrow> state \<times> nat" where
  "get_or_create rid s =
     (case map_of (rooms s) rid of
        Some a \<Rightarrow> (s, a)
      | None \<Rightarrow>
          (s\<lparr>rooms := rooms s @ [(rid, next_addr s)],
             heap := (heap s)(next_addr s := empty_room),
             next_addr := Suc (next_addr s)\<rparr>, next_addr s))"

text \<open>Lines 49-51; every symbol of the alphabet is truthy, so \<open>||\<close> acts only on \<open>undefined\<close>.\<close>

definition pick_symbol :: "player list \<Rightarrow> jsstring" where
  "pick_symbol ps =
     (let usedSymbols = map symbol ps
      in case find (\<lambda>s. s \<notin> set usedSymbols) possibleSymbols of
           Some s \<Rightarrow> s
         | None \<Rightarrow> [0xD83D, 0xDC07])"

text \<open>Lines 44-53 on the room object.\<close>

definition admit :: "jsstring \<Rightarrow> jsstring \<Rightarrow> player \<Rightarrow> room \<Rightarrow> room" where
  "admit sid rid claim r =
     (let player = claim\<lparr>socketID := sid, roomID := Some rid\<rparr>
      in case find (\<lambda>p. id_player p = id_player player) (players r) of
           Some existingPlayer \<Rightarrow> r
         | None \<Rightarrow> r\<lparr>players := players r @ [player\<lparr>symbol := pick_symbol (players r)\<rparr>]\<rparr>)"

text \<open>Lines 55-59.\<close>

definition room_broadcast :: "jsstring \<Rightarrow> room \<Rightarrow> emission list" where
  "room_broadcast rid r =
     [Emit (To_room rid) ''joined-room'' (Json_room r),
      Emit (To_room rid) ''update-players'' (Json_players (players r)),
      Emit (To_room rid) ''update-turn'' (Json_turn (currentTurn r)),
      Emit (To_room rid) ''update-dice'' (Json_dice (dice r)),
      Emit (To_room rid) ''update-chat'' (Json_chat (chat r))]"

definition on_join_room :: "jsstring \<Rightarrow> jsstring \<Rightarrow> player option \<Rightarrow> state \<Rightarrow> outcome" where
  "on_join_room sid rid claim s =
     (case claim of
        None \<Rightarrow> Inr (s, [])
      | Some player \<Rightarrow>
          (if rid = [] then Inr (s, [])
           else
             (let s1 = s\<lparr>subs := insert (sid, rid) (subs s)\<rparr>
              in (case rooms_get s1 rid of
                    Builtin \<Rightarrow> Inl Type_error
                  | Room a \<Rightarrow>
                      (if name_taken player (players (heap s1 a))
                       then Inr (s1, [Emit (To_socket sid) ''name-taken'' (Flag True)])
                       else
                         (let r = admit sid rid player (heap s1 a)
                          in Inr (s1\<lparr>heap := (heap s1)(a := r)\<rparr>, room_broadcast rid r)))
                  | Absent \<Rightarrow>
                      (let (s2, a) = get_or_create rid s1;
                           r = admit sid rid player (heap s2 a)
                       in Inr (s2\<lparr>heap := (heap s2)(a := r)\<rparr>, room_broadcast rid r))))))"

subsection \<open>update-players, update-turn, update-dice, start-state, chat (lines 62-93)\<close>

definition isValidJSON :: "(jsstring \<Rightarrow> json option) \<Rightarrow> jsstring \<Rightarrow> bool" where
  "isValidJSON parse msg = (parse msg \<noteq> None)"

definition on_update_players :: "(jsstring \<Rightarrow> json option) \<Rightarrow> jsstring \<Rightarrow> jsstring \<Rightarrow> state \<Rightarrow> outcome" where
  "on_update_players parse rid msg s =
     (if \<not> isValidJSON parse msg \<or> rooms_get s rid = Absent then Inr (s, [])
      else case parse msg of
             Some (J_array ps) \<Rightarrow>
               (case rooms_get s rid of
                  Room a \<Rightarrow>
                    Inr (s\<lparr>heap := (heap s)(a := (heap s a)\<lparr>players := ps\<rparr>)\<rparr>,
                         [Emit (To_room rid) ''update-players'' (Json_players ps)])
                | _ \<Rightarrow> Inl Builtin_written)
           | _ \<Rightarrow> Inr (s, []))"

definition on_update_turn :: "jsstring \<Rightarrow> jsstring \<Rightarrow> state \<Rightarrow> outcome" where
  "on_update_turn rid msg s = Inr (s, [Emit (To_room rid) ''update-turn'' (Raw msg)])"

definition on_update_dice :: "jsstring \<Rightarrow> jsstring \<Rightarrow> state \<Rightarrow> outcome" where
  "on_update_dice rid msg s = Inr (s, [Emit (To_room rid) ''update-dice'' (Raw msg)])"

definition on_start_state :: "(jsstring \<Rightarrow> json option) \<Rightarrow> jsstring \<Rightarrow> jsstring \<Rightarrow> state \<Rightarrow> outcome" where
  "on_start_state parse rid msg s =
     (if \<not> isValidJSON parse msg \<or> rooms_get s rid = Absent then Inr (s, [])
      else case parse msg of
             Some (J_boolean b) \<Rightarrow>
               (case rooms_get s rid of
                  Room a \<Rightarrow>
                    Inr (s\<lparr>heap := (heap s)(a := (heap s a)\<lparr>started := b\<rparr>)\<rparr>,
                         [Emit (To_room rid) ''start-state'' (Raw msg)])
                | _ \<Rightarrow> Inl Builtin_written)
           | _ \<Rightarrow> Inr (s, []))"

definition on_chat :: "jsstring \<Rightarrow> chat_msg \<Rightarrow> state \<Rightarrow> outcome" where
  "on_chat rid msg s =
     (case rooms_get s rid of
        Absent \<Rightarrow> Inr (s, [])
      | slot \<Rightarrow>
          (case msg of
             Non_string \<Rightarrow> Inr (s, [])
           | Str m \<Rightarrow>
               (if length m > 500 then Inr (s, [])
                else (case slot of
                        Room a \<Rightarrow>
                          (let r = (heap s a)\<lparr>chat := chat (heap s a) @ [m]\<rparr>
                           in Inr (s\<lparr>heap := (heap s)(a := r)\<rparr>,
                                   [Emit (To_room rid) ''chat'' (Json_chat (chat r))]))
                      | _ \<Rightarrow> Inl Type_error))))"

subsection \<open>disconnect and the eviction task (lines 95-128)\<close>

text \<open>The loop of lines 98-127 up to its \<open>break\<close>: the first room, in \<open>for-in\<close> order, that
  holds a player of the socket, with the player's index.\<close>

fun scan_rooms :: "jsstring \<Rightarrow> (nat \<Rightarrow> room) \<Rightarrow> (jsstring \<times> nat) list \<Rightarrow> (jsstring \<times> nat \<times> nat) option" where
  "scan_rooms sid h [] = None"
| "scan_rooms sid h ((rid, a) # rest) =
     (case findIndex (\<lambda>p. socketID p = sid) (players (h a)) of
        Some playerIndex \<Rightarrow> Some (rid, a, playerIndex)
      | None \<Rightarrow> scan_rooms sid h rest)"

definition waiting_note :: "jsstring \<Rightarrow> jsstring" where
  "waiting_note n = n @ ascii '' disconnected. Waiting 60 seconds...''"

definition gone_note :: "jsstring \<Rightarrow> jsstring" where
  "gone_note n = n @ ascii '' disconnected.''"

text \<open>Lines 119-122 and 105-108: \<open>if (rooms[roomID]) { push; emit }\<close>.\<close>

definition announce :: "jsstring \<Rightarrow> jsstring \<Rightarrow> state \<Rightarrow> outcome" where
  "announce rid line s =
     (case rooms_get s rid of
        Absent \<Rightarrow> Inr (s, [])
      | Builtin \<Rightarrow> Inl Type_error
      | Room a \<Rightarrow>
          let r = (heap s a)\<lparr>chat := chat (heap s a) @ [line]\<rparr>
          in Inr (s\<lparr>heap := (heap s)(a := r)\<rparr>,
                  [Emit (To_room rid) ''chat'' (Json_chat (chat r))]))"

definition on_disconnect :: "jsstring \<Rightarrow> state \<Rightarrow> outcome" where
  "on_disconnect sid s =
     (case scan_rooms sid (heap s) (for_in_order (rooms s)) of
        None \<Rightarrow> Inr (s, [])
      | Some (rid, a, playerIndex) \<Rightarrow>
          (let player = players (heap s a) ! playerIndex
           in (case announce rid (waiting_note (name player)) s of
                 Inl e \<Rightarrow> Inl e
               | Inr (s1, out) \<Rightarrow>
                   (let r = heap s1 a;
                        r' = r\<lparr>players := (players r)
                               [playerIndex := (players r ! playerIndex)\<lparr>disconnected := Some True\<rparr>]\<rparr>
                    in Inr (s1\<lparr>heap := (heap s1)(a := r'),
                               timers := timers s1 @
                                 [\<lparr>t_socket = sid, t_room = a, t_roomID = rid, t_name = name player\<rparr>]\<rparr>,
                            out)))))"

text \<open>The callback of lines 112-124.\<close>

definition eviction_task :: "timer \<Rightarrow> state \<Rightarrow> outcome" where
  "eviction_task t s =
     (let r = heap s (t_room t)
      in (case findIndex (\<lambda>p. socketID p = t_socket t) (players r) of
            None \<Rightarrow> Inr (s, [])
          | Some updatedIndex \<Rightarrow>
              (if disconnected (players r ! updatedIndex) \<noteq> Some True then Inr (s, [])
               else
                 (let ps = splice1 updatedIndex (players r);
                      s1 = s\<lparr>heap := (heap s)(t_room t := r\<lparr>players := ps\<rparr>)\<rparr>;
                      s2 = (if length ps = 0 then rooms_delete (t_roomID t) s1 else s1);
                      out = [Emit (To_room (t_roomID t)) ''update-players'' (Json_players ps)]
                  in (case announce (t_roomID t) (gone_note (t_name t)) s2 of
                        Inl e \<Rightarrow> Inl e
                      | Inr (s3, out') \<Rightarrow> Inr (s3, out @ out'))))))"

subsection \<open>The event loop\<close>

text \<open>
  One event at a time (the process is single-threaded).  \<open>Disconnect\<close> is the transport
  closing a connection: it drops the connection's memberships and then runs the
  handler.  \<open>Timeout\<close> is the oldest pending timer firing.
\<close>

datatype event =
    Join_room jsstring jsstring "player option"
  | Update_players jsstring jsstring
  | Update_turn jsstring jsstring
  | Update_dice jsstring jsstring
  | Start_state jsstring jsstring
  | Chat jsstring chat_msg
  | Disconnect jsstring
  | Timeout

fun step :: "(jsstring \<Rightarrow> json option) \<Rightarrow> event \<Rightarrow> state \<Rightarrow> outcome" where
  "step parse (Join_room sid rid claim) s = on_join_room sid rid claim s"
| "step parse (Update_players rid msg) s = on_update_players parse rid msg s"
| "step parse (Update_turn rid msg) s = on_update_turn rid msg s"
| "step parse (Update_dice rid msg) s = on_update_dice rid msg s"
| "step parse (Start_state rid msg) s = on_start_state parse rid msg s"
| "step parse (Chat rid msg) s = on_chat rid msg s"
| "step parse (Disconnect sid) s = on_disconnect sid (s\<lparr>subs := {m \<in> subs s. fst m \<noteq> sid}\<rparr>)"
| "step parse Timeout s =
     (case timers s of
        [] \<Rightarrow> Inr (s, [])
      | t # ts \<Rightarrow> eviction_task t (s\<lparr>timers := ts\<rparr>))"

fun run :: "(jsstring \<Rightarrow> json option) \<Rightarrow> event list \<Rightarrow> state \<Rightarrow> outcome" where
  "run parse [] s = Inr (s, [])"
| "run parse (e # es) s =
     (case step parse e s of
        Inl x \<Rightarrow> Inl x
      | Inr (s1, out) \<Rightarrow>
          (case run parse es s1 of
             Inl x \<Rightarrow> Inl x
           | Inr (s2, out') \<Rightarrow> Inr (s2, out @ out')))"


subsection \<open>Example data\<close>

text \<open>
  Concrete inputs at which the theorems below are instantiated.  \<open>newcomer n i\<close> is a
  player claim as a client sends it (name \<open>n\<close>, stable id \<open>i\<close>); \<open>seated\<close> is that
  claim as the server stores it; \<open>lobby\<close> is the state after Alice (id 1) has joined room
  ABC123 from connection s1 (lemma \<open>lobby_reached\<close>); \<open>toy_parse\<close> gives the value of
  \<open>JSON.parse\<close> at four texts and throws elsewhere; \<open>twelve\<close> are twelve claims
  with pairwise distinct names and ids, each sent from a connection of its own.
\<close>

definition newcomer :: "string \<Rightarrow> string \<Rightarrow> player" where
  "newcomer n i = \<lparr>position = 0, name = ascii n, symbol = [], money = 1500, properties = [],
     recentDiff = 0, id_player = ascii i, socketID = [], roomID = None, disconnected = None\<rparr>"

definition seated :: "string \<Rightarrow> string \<Rightarrow> string \<Rightarrow> string \<Rightarrow> nat \<Rightarrow> player" where
  "seated n i sid rid k =
     (newcomer n i)\<lparr>socketID := ascii sid, roomID := Some (ascii rid), symbol := possibleSymbols ! k\<rparr>"

definition lobby :: state where
  "lobby = \<lparr>rooms = [(ascii ''ABC123'', 0)],
            heap = (\<lambda>_. empty_room)(0 := empty_room\<lparr>players := [seated ''Alice'' ''1'' ''s1'' ''ABC123'' 0]\<rparr>),
            next_addr = 1, timers = [], subs = {(ascii ''s1'', ascii ''ABC123'')}\<rparr>"

definition toy_parse :: "jsstring \<Rightarrow> json option" where
  "toy_parse m =
     (if m = ascii ''[]'' then Some (J_array [])
      else if m = ascii ''true'' then Some (J_boolean True)
      else if m = ascii ''7'' then Some J_other
      else None)"

definition twelve :: "(jsstring \<times> player) list" where
  "twelve = map (\<lambda>n. (ascii n, newcomer n n))
     [''a'', ''b'', ''c'', ''d'', ''e'', ''f'', ''g'', ''h'', ''i'', ''j'', ''k'', ''l'']"

subsection \<open>Vocabulary of the properties\<close>

text \<open>
  \<open>joins rid cs\<close> is the event sequence in which each claim of \<open>cs\<close> joins room \<open>rid\<close>
  from its connection; \<open>seat rid (k, sid, c)\<close> is claim \<open>c\<close> as stored when it is the
  \<open>k\<close>-th to join; \<open>final_room res rid\<close> is the room registered under \<open>rid\<close> when a run
  ends; \<open>unrolled s\<close> says that every room object still has the turn and dice it was
  created with; \<open>registry_ok s\<close> says that \<open>rooms\<close> lists each key once and no key is
  the name of a property of \<open>Object.prototype\<close>, as holds of the own properties the
  server creates (lemma \<open>registry_ok_run\<close>).
\<close>

definition joins :: "jsstring \<Rightarrow> (jsstring \<times> player) list \<Rightarrow> event list" where
  "joins rid cs = map (\<lambda>(sid, c). Join_room sid rid (Some c)) cs"

definition seat :: "jsstring \<Rightarrow> nat \<times> jsstring \<times> player \<Rightarrow> player" where
  "seat rid = (\<lambda>(k, sid, c). c\<lparr>socketID := sid, roomID := Some rid, symbol := possibleSymbols ! k\<rparr>)"

definition final_room :: "outcome \<Rightarrow> jsstring \<Rightarrow> room option" where
  "final_room res rid =
     (case res of
        Inl e \<Rightarrow> None
      | Inr (s, out) \<Rightarrow> (case rooms_get s rid of Room a \<Rightarrow> Some (heap s a) | _ \<Rightarrow> None))"

definition unrolled :: "state \<Rightarrow> bool" where
  "unrolled s = (\<forall>a. currentTurn (heap s a) = 0 \<and> dice (heap s a) = (-1, -1))"

definition registry_ok :: "state \<Rightarrow> bool" where
  "registry_ok s = (distinct (map fst (rooms s)) \<and> set (map fst (rooms s)) \<inter> set object_prototype_keys = {})"

section \<open>Properties\<close>

subsection \<open>Auxiliary facts\<close>

lemmas example_defs = newcomer_def seated_def lobby_def init_def empty_room_def ascii_def
  possibleSymbols_def object_prototype_keys_def

lemmas handler_defs = on_join_room_def rooms_get_def get_or_create_def admit_def pick_symbol_def
  name_taken_def room_broadcast_def on_update_turn_def on_update_dice_def Let_def

lemmas disconnect_defs = on_disconnect_def for_in_order_def array_index_def digit_def decimal_def
  announce_def waiting_note_def gone_note_def eviction_task_def splice1_def rooms_delete_def

lemma lobby_reached:
  "run parse [Join_room (ascii ''s1'') (ascii ''ABC123'') (Some (newcomer ''Alice'' ''1''))] init
   = Inr (lobby, room_broadcast (ascii ''ABC123'') (heap lobby 0))"
  by (simp add: example_defs on_join_room_def rooms_get_def get_or_create_def admit_def pick_symbol_def Let_def)

lemma name_taken_iff:
  "name_taken claim ps \<longleftrightarrow> (\<exists>p \<in> set ps. name p = name claim \<and> id_player p \<noteq> id_player claim)"
  by (auto simp: name_taken_def find_None_iff)

lemma map_of_snoc_fresh:
  "map_of xs k = None \<Longrightarrow> map_of (xs @ [(k, v)]) k = Some v"
  by (simp add: map_add_def)

lemma run_invariant:
  assumes step: "\<And>e s s' out. I s \<Longrightarrow> step parse e s = Inr (s', out) \<Longrightarrow> I s'"
    and "I s" and "run parse es s = Inr (s', out)"
  shows "I s'"
  using assms(2,3)
proof (induction es arbitrary: s out)
  case Nil
  then show ?case by simp
next
  case (Cons e es)
  from Cons.prems(2) obtain s1 out1 out2
    where first: "step parse e s = Inr (s1, out1)" and rest: "run parse es s1 = Inr (s', out2)"
    by (auto split: sum.splits)
  from step [OF Cons.prems(1) first] have "I s1" .
  from Cons.IH [OF this rest] show ?case .
qed

text \<open>What join-room does in each of its three cases, and what it can emit.\<close>

lemma join_absent:
  assumes "rid \<noteq> []" and "rooms_get s rid = Absent"
  shows "on_join_room sid rid (Some claim) s =
           Inr (s\<lparr>rooms := rooms s @ [(rid, next_addr s)],
                  heap := (heap s)(next_addr s :=
                    \<lparr>players = [claim\<lparr>socketID := sid, roomID := Some rid, symbol := [0xD83D, 0xDC07]\<rparr>],
                     currentTurn = 0, dice = (-1, -1), started = False, chat = []\<rparr>),
                  next_addr := Suc (next_addr s),
                  subs := insert (sid, rid) (subs s)\<rparr>,
                room_broadcast rid
                  \<lparr>players = [claim\<lparr>socketID := sid, roomID := Some rid, symbol := [0xD83D, 0xDC07]\<rparr>],
                   currentTurn = 0, dice = (-1, -1), started = False, chat = []\<rparr>)"
proof -
  from assms(2) have none: "map_of (rooms s) rid = None"
    by (simp add: rooms_get_def split: option.splits)
  have first: "pick_symbol [] = [0xD83D, 0xDC07]"
    by (simp add: pick_symbol_def possibleSymbols_def)
  from assms(2) have absent: "rooms_get (s\<lparr>subs := insert (sid, rid) (subs s)\<rparr>) rid = Absent"
    by (simp add: rooms_get_def)
  show ?thesis
    using assms(1) none absent
    by (simp add: on_join_room_def get_or_create_def admit_def empty_room_def first Let_def)
qed

lemma join_new_player:
  assumes "rid \<noteq> []" and "rooms_get s rid = Room a"
    and "name c \<notin> name ` set (players (heap s a))"
    and "id_player c \<notin> id_player ` set (players (heap s a))"
  shows "on_join_room sid rid (Some c) s =
     Inr (s\<lparr>subs := insert (sid, rid) (subs s),
            heap := (heap s)(a := (heap s a)\<lparr>players := players (heap s a) @
              [c\<lparr>socketID := sid, roomID := Some rid, symbol := pick_symbol (players (heap s a))\<rparr>]\<rparr>)\<rparr>,
          room_broadcast rid ((heap s a)\<lparr>players := players (heap s a) @
              [c\<lparr>socketID := sid, roomID := Some rid, symbol := pick_symbol (players (heap s a))\<rparr>]\<rparr>))"
proof -
  have free: "\<not> name_taken c (players (heap s a))"
    using assms(3) by (auto simp: name_taken_iff image_iff)
  have new: "find (\<lambda>p. id_player p = id_player c) (players (heap s a)) = None"
    using assms(4) by (auto simp: find_None_iff image_iff)
  have room: "rooms_get (s\<lparr>subs := insert (sid, rid) (subs s)\<rparr>) rid = Room a"
    using assms(2) by (simp add: rooms_get_def)
  show ?thesis
    using assms(1) free new room
    by (simp add: on_join_room_def admit_def Let_def)
qed

lemma join_known_id:
  assumes "rid \<noteq> []" and "rooms_get s rid = Room a"
    and "\<not> name_taken c (players (heap s a))"
    and "p \<in> set (players (heap s a))" and "id_player p = id_player c"
  shows "on_join_room sid rid (Some c) s =
           Inr (s\<lparr>subs := insert (sid, rid) (subs s)\<rparr>, room_broadcast rid (heap s a))"
proof -
  have "find (\<lambda>p. id_player p = id_player c) (players (heap s a)) \<noteq> None"
    using assms(4,5) by (auto simp: find_None_iff)
  then obtain q where "find (\<lambda>p. id_player p = id_player c) (players (heap s a)) = Some q"
    by blast
  moreover have "rooms_get (s\<lparr>subs := insert (sid, rid) (subs s)\<rparr>) rid = Room a"
    using assms(2) by (simp add: rooms_get_def)
  ultimately show ?thesis
    using assms(1,3) by (simp add: on_join_room_def admit_def Let_def)
qed

lemma join_output:
  assumes "on_join_room sid rid claim s = Inr (s', out)"
  shows "out = [] \<or> out = [Emit (To_socket sid) ''name-taken'' (Flag True)]
       \<or> (\<exists>a. rooms_get s' rid = Room a \<and> out = room_broadcast rid (heap s' a))"
proof (cases claim)
  case None
  with assms show ?thesis by (simp add: on_join_room_def)
next
  case (Some player)
  show ?thesis
  proof (cases "rooms_get s rid")
    case Absent
    then have "map_of (rooms s) rid = None"
      by (simp add: rooms_get_def split: option.splits)
    with assms Some Absent show ?thesis
      by (auto simp: on_join_room_def rooms_get_def get_or_create_def map_of_snoc_fresh Let_def
          simp del: map_of_append split: if_splits)
  next
    case Builtin
    with assms Some show ?thesis
      by (auto simp: on_join_room_def rooms_get_def Let_def split: if_splits option.splits)
  next
    case (Room a)
    with assms Some show ?thesis
      by (auto simp: on_join_room_def rooms_get_def Let_def split: if_splits option.splits)
  qed
qed

text \<open>The two cases of the disconnect handler and of the eviction task.\<close>

lemma on_disconnect_miss:
  "scan_rooms sid (heap s) (for_in_order (rooms s)) = None \<Longrightarrow> on_disconnect sid s = Inr (s, [])"
  by (simp add: on_disconnect_def)

lemma on_disconnect_hit:
  assumes "scan_rooms sid (heap s) (for_in_order (rooms s)) = Some (rid, a, i)"
  shows "on_disconnect sid s =
     (case announce rid (waiting_note (name (players (heap s a) ! i))) s of
        Inl e \<Rightarrow> Inl e
      | Inr (s1, out) \<Rightarrow>
          Inr (s1\<lparr>heap := (heap s1)(a := (heap s1 a)\<lparr>players := (players (heap s1 a))
                       [i := (players (heap s1 a) ! i)\<lparr>disconnected := Some True\<rparr>]\<rparr>),
                  timers := timers s1 @
                    [\<lparr>t_socket = sid, t_room = a, t_roomID = rid, t_name = name (players (heap s a) ! i)\<rparr>]\<rparr>,
               out))"
  unfolding on_disconnect_def assms
  by (simp add: Let_def split: sum.splits)

lemma eviction_task_skip:
  assumes "findIndex (\<lambda>p. socketID p = t_socket t) (players (heap s (t_room t))) = None
         \<or> (\<exists>i. findIndex (\<lambda>p. socketID p = t_socket t) (players (heap s (t_room t))) = Some i
                \<and> disconnected (players (heap s (t_room t)) ! i) \<noteq> Some True)"
  shows "eviction_task t s = Inr (s, [])"
  using assms unfolding eviction_task_def
  by (auto simp: Let_def)

lemma eviction_task_fire:
  assumes "findIndex (\<lambda>p. socketID p = t_socket t) (players (heap s (t_room t))) = Some i"
    and "disconnected (players (heap s (t_room t)) ! i) = Some True"
  shows "eviction_task t s =
     (case announce (t_roomID t) (gone_note (t_name t))
             (if splice1 i (players (heap s (t_room t))) = []
              then rooms_delete (t_roomID t)
                     (s\<lparr>heap := (heap s)(t_room t := (heap s (t_room t))\<lparr>players := []\<rparr>)\<rparr>)
              else s\<lparr>heap := (heap s)(t_room t :=
                     (heap s (t_room t))\<lparr>players := splice1 i (players (heap s (t_room t)))\<rparr>)\<rparr>) of
        Inl e \<Rightarrow> Inl e
      | Inr (s3, out') \<Rightarrow>
          Inr (s3, Emit (To_room (t_roomID t)) ''update-players''
                     (Json_players (splice1 i (players (heap s (t_room t))))) # out'))"
  using assms
  by (simp add: eviction_task_def Let_def split: sum.splits)

subsection \<open>Rejected joins\<close>

text \<open>
  Claim C4.  A join-room event whose display name equals that of a player already in the
  room, while the stable ids differ, emits \<open>name-taken\<close> to the requesting connection
  only: the single message of the handler is addressed to that socket, none to the room,
  and of the state only the transport's membership relation changes, so the registry and
  every room (player sequence, turn, dice, started flag, chat) are as before.
\<close>

theorem join_name_taken:
  assumes "rid \<noteq> []" and "rooms_get s rid = Room a"
    and "p \<in> set (players (heap s a))" and "name p = name claim" and "id_player p \<noteq> id_player claim"
  shows "on_join_room sid rid (Some claim) s =
           Inr (s\<lparr>subs := insert (sid, rid) (subs s)\<rparr>, [Emit (To_socket sid) ''name-taken'' (Flag True)])"
proof -
  have "name_taken claim (players (heap s a))"
    using assms(3-5) by (auto simp: name_taken_iff)
  moreover have "rooms_get (s\<lparr>subs := insert (sid, rid) (subs s)\<rparr>) rid = Room a"
    using assms(2) by (simp add: rooms_get_def)
  ultimately show ?thesis
    using assms(1) by (simp add: on_join_room_def Let_def)
qed

theorem join_name_taken_witness:
  "on_join_room (ascii ''s2'') (ascii ''ABC123'') (Some (newcomer ''Alice'' ''2'')) lobby =
     Inr (lobby\<lparr>subs := insert (ascii ''s2'', ascii ''ABC123'') (subs lobby)\<rparr>,
          [Emit (To_socket (ascii ''s2'')) ''name-taken'' (Flag True)])"
  using join_name_taken [of "ascii ''ABC123''" lobby 0 "seated ''Alice'' ''1'' ''s1'' ''ABC123'' 0"
      "newcomer ''Alice'' ''2''" "ascii ''s2''"]
  by (simp add: example_defs rooms_get_def)

subsection \<open>Subscription precedes the name check\<close>












subsection \<open>Events for a room that is not in the registry\<close>




text \<open>
  The twelve names are left out of the amended claim because there \<open>rooms[roomID]\<close> is an
  object of the runtime although the registry has no such key: update-players and
  start-state pass their guard and assign a property of that object, and chat reads
  \<open>chat\<close> of it, which is \<open>undefined\<close>, and throws.
\<close>

lemma prototype_name_events:
  "map_of (rooms init) (ascii ''constructor'') = None
   \<and> on_update_players toy_parse (ascii ''constructor'') (ascii ''[]'') init = Inl Builtin_written
   \<and> on_start_state toy_parse (ascii ''constructor'') (ascii ''true'') init = Inl Builtin_written
   \<and> on_chat (ascii ''constructor'') (Str (ascii ''hi'')) init = Inl Type_error"
  by (simp add: example_defs rooms_get_def toy_parse_def isValidJSON_def
      on_update_players_def on_start_state_def on_chat_def)

subsection \<open>update-players and start-state\<close>

text \<open>
  Claim C6.  On an existing room, an update-players payload that is not valid JSON or does
  not parse to an array, and a start-state payload that is not valid JSON or does not
  parse to a boolean, leave the whole state unchanged and emit nothing; a payload that
  parses to an array replaces the player sequence, one that parses to a boolean is stored
  in \<open>started\<close>, and each is followed by one broadcast to the room.
\<close>

theorem malformed_payload_dropped:
  assumes "rooms_get s rid = Room a"
  shows "((\<forall>ps. parse msg \<noteq> Some (J_array ps)) \<longrightarrow> on_update_players parse rid msg s = Inr (s, []))
       \<and> (parse msg = Some (J_array ps) \<longrightarrow>
            on_update_players parse rid msg s =
              Inr (s\<lparr>heap := (heap s)(a := (heap s a)\<lparr>players := ps\<rparr>)\<rparr>,
                   [Emit (To_room rid) ''update-players'' (Json_players ps)]))
       \<and> ((\<forall>b. parse msg \<noteq> Some (J_boolean b)) \<longrightarrow> on_start_state parse rid msg s = Inr (s, []))
       \<and> (parse msg = Some (J_boolean b) \<longrightarrow>
            on_start_state parse rid msg s =
              Inr (s\<lparr>heap := (heap s)(a := (heap s a)\<lparr>started := b\<rparr>)\<rparr>,
                   [Emit (To_room rid) ''start-state'' (Raw msg)]))"
  using assms
  by (auto simp: on_update_players_def on_start_state_def isValidJSON_def
           split: option.splits json.splits)

theorem malformed_payload_dropped_witness:
  "on_update_players toy_parse (ascii ''ABC123'') (ascii ''[{'') lobby = Inr (lobby, [])
   \<and> on_update_players toy_parse (ascii ''ABC123'') (ascii ''true'') lobby = Inr (lobby, [])
   \<and> on_update_players toy_parse (ascii ''ABC123'') (ascii ''[]'') lobby =
        Inr (lobby\<lparr>heap := (heap lobby)(0 := (heap lobby 0)\<lparr>players := []\<rparr>)\<rparr>,
             [Emit (To_room (ascii ''ABC123'')) ''update-players'' (Json_players [])])
   \<and> on_start_state toy_parse (ascii ''ABC123'') (ascii ''[{'') lobby = Inr (lobby, [])
   \<and> on_start_state toy_parse (ascii ''ABC123'') (ascii ''7'') lobby = Inr (lobby, [])
   \<and> on_start_state toy_parse (ascii ''ABC123'') (ascii ''true'') lobby =
        Inr (lobby\<lparr>heap := (heap lobby)(0 := (heap lobby 0)\<lparr>started := True\<rparr>)\<rparr>,
             [Emit (To_room (ascii ''ABC123'')) ''start-state'' (Raw (ascii ''true''))])"
proof -
  have room: "rooms_get lobby (ascii ''ABC123'') = Room 0"
    by (simp add: example_defs rooms_get_def)
  have p1: "toy_parse (ascii ''[{'') = None" "toy_parse (ascii ''true'') = Some (J_boolean True)"
    "toy_parse (ascii ''[]'') = Some (J_array [])" "toy_parse (ascii ''7'') = Some J_other"
    by (simp_all add: toy_parse_def ascii_def)
  show ?thesis
    using malformed_payload_dropped [OF room, of toy_parse "ascii ''[{''" "[]" True]
      malformed_payload_dropped [OF room, of toy_parse "ascii ''true''" "[]" True]
      malformed_payload_dropped [OF room, of toy_parse "ascii ''[]''" "[]" True]
      malformed_payload_dropped [OF room, of toy_parse "ascii ''7''" "[]" True]
    by (simp add: p1)
qed

subsection \<open>chat\<close>

text \<open>
  Claim C7.  On an existing room, a chat message that is not a string, or is a string of
  more than 500 code units, leaves the state unchanged and emits nothing; a string of at
  most 500 code units is appended to the room's chat sequence and the whole updated
  sequence is broadcast to the room.
\<close>

theorem chat_length_limit:
  assumes "rooms_get s rid = Room a"
  shows "on_chat rid Non_string s = Inr (s, [])
       \<and> (500 < length m \<longrightarrow> on_chat rid (Str m) s = Inr (s, []))
       \<and> (length m \<le> 500 \<longrightarrow>
            on_chat rid (Str m) s =
              Inr (s\<lparr>heap := (heap s)(a := (heap s a)\<lparr>chat := chat (heap s a) @ [m]\<rparr>)\<rparr>,
                   [Emit (To_room rid) ''chat'' (Json_chat (chat (heap s a) @ [m]))]))"
  using assms by (simp add: on_chat_def Let_def)

theorem chat_length_limit_witness:
  "on_chat (ascii ''ABC123'') Non_string lobby = Inr (lobby, [])
   \<and> on_chat (ascii ''ABC123'') (Str (replicate 501 0x61)) lobby = Inr (lobby, [])
   \<and> on_chat (ascii ''ABC123'') (Str (replicate 500 0x61)) lobby =
        Inr (lobby\<lparr>heap := (heap lobby)(0 := (heap lobby 0)\<lparr>chat := [replicate 500 0x61]\<rparr>)\<rparr>,
             [Emit (To_room (ascii ''ABC123'')) ''chat'' (Json_chat [replicate 500 0x61])])"
proof -
  have room: "rooms_get lobby (ascii ''ABC123'') = Room 0"
    by (simp add: example_defs rooms_get_def)
  have empty: "chat (heap lobby 0) = []"
    by (simp add: example_defs)
  show ?thesis
    using chat_length_limit [OF room, of "replicate 501 0x61"]
      chat_length_limit [OF room, of "replicate 500 0x61"]
    by (simp add: empty)
qed

subsection \<open>Room creation\<close>

text \<open>
  For a non-empty room identifier that is neither a key of the registry nor a property
  name of \<open>Object.prototype\<close>, join-room creates a room whose state is exactly: no
  players, \<open>currentTurn\<close> 0, dice (-1, -1), not started, empty chat; the handler then
  appends the joining player (with the first symbol) and returns normally.
\<close>

lemma join_creates_room:
  assumes "rid \<noteq> []" and "rooms_get s rid = Absent"
  shows "get_or_create rid s =
           (s\<lparr>rooms := rooms s @ [(rid, next_addr s)],
              heap := (heap s)(next_addr s :=
                \<lparr>players = [], currentTurn = 0, dice = (-1, -1), started = False, chat = []\<rparr>),
              next_addr := Suc (next_addr s)\<rparr>, next_addr s)
       \<and> on_join_room sid rid (Some claim) s =
           Inr (s\<lparr>rooms := rooms s @ [(rid, next_addr s)],
                  heap := (heap s)(next_addr s :=
                    \<lparr>players = [claim\<lparr>socketID := sid, roomID := Some rid, symbol := [0xD83D, 0xDC07]\<rparr>],
                     currentTurn = 0, dice = (-1, -1), started = False, chat = []\<rparr>),
                  next_addr := Suc (next_addr s),
                  subs := insert (sid, rid) (subs s)\<rparr>,
                room_broadcast rid
                  \<lparr>players = [claim\<lparr>socketID := sid, roomID := Some rid, symbol := [0xD83D, 0xDC07]\<rparr>],
                   currentTurn = 0, dice = (-1, -1), started = False, chat = []\<rparr>)"
proof -
  from assms(2) have "map_of (rooms s) rid = None"
    by (simp add: rooms_get_def split: option.splits)
  then have "get_or_create rid s =
           (s\<lparr>rooms := rooms s @ [(rid, next_addr s)],
              heap := (heap s)(next_addr s :=
                \<lparr>players = [], currentTurn = 0, dice = (-1, -1), started = False, chat = []\<rparr>),
              next_addr := Suc (next_addr s)\<rparr>, next_addr s)"
    by (simp add: get_or_create_def empty_room_def)
  with join_absent [OF assms, of sid claim] show ?thesis
    by simp
qed

lemma join_creates_room_example:
  "on_join_room (ascii ''s1'') (ascii ''ABC123'') (Some (newcomer ''Alice'' ''1'')) init =
     Inr (lobby, room_broadcast (ascii ''ABC123'') (heap lobby 0))"
proof -
  have absent: "rooms_get init (ascii ''ABC123'') = Absent"
    by (simp add: example_defs rooms_get_def)
  have key: "ascii ''ABC123'' \<noteq> []"
    by (simp add: ascii_def)
  show ?thesis
    using join_creates_room [OF key absent, of "ascii ''s1''" "newcomer ''Alice'' ''1''"]
    by (simp add: example_defs)
qed

lemma join_prototype_name:
  assumes "rid \<noteq> []" and "map_of (rooms s) rid = None" and "rid \<in> set object_prototype_keys"
  shows "on_join_room sid rid (Some claim) s = Inl Type_error"
  using assms by (simp add: on_join_room_def rooms_get_def Let_def)

text \<open>
  Claim C8 (the code departs from it).  On a server that has just started, a player
  joins the room named \<open>constructor\<close>.  The identifier is truthy, the registry has no
  such key and there is no player to conflict with, so the claim promises a new room.
  But \<open>rooms[roomID]\<close> finds \<open>Object.prototype.constructor\<close>, the test of line 35 reads
  \<open>players\<close> of it, which is \<open>undefined\<close>, and calling \<open>find\<close> on that throws before
  lines 40-42 are reached: no room is created.  The same holds of each of the twelve
  names (lemma \<open>join_prototype_name\<close>); for every other identifier the claim holds
  (lemma \<open>join_creates_room\<close>).
\<close>

theorem join_prototype_name_throws:
  "ascii ''constructor'' \<noteq> []
   \<and> map_of (rooms init) (ascii ''constructor'') = None
   \<and> on_join_room (ascii ''s1'') (ascii ''constructor'') (Some (newcomer ''Alice'' ''1'')) init
       = Inl Type_error"
  by (simp add: example_defs on_join_room_def rooms_get_def Let_def)

subsection \<open>Turn and dice are relayed, never stored\<close>

lemma unrolled_announce:
  "unrolled s \<Longrightarrow> announce rid l s = Inr (s', out) \<Longrightarrow> unrolled s'"
  by (auto simp: unrolled_def announce_def Let_def split: slot.splits)

lemma unrolled_join:
  "unrolled s \<Longrightarrow> on_join_room sid rid claim s = Inr (s', out) \<Longrightarrow> unrolled s'"
  by (auto simp: unrolled_def on_join_room_def get_or_create_def admit_def empty_room_def Let_def
           split: option.splits if_splits slot.splits)

lemma unrolled_update_players:
  "unrolled s \<Longrightarrow> on_update_players parse rid msg s = Inr (s', out) \<Longrightarrow> unrolled s'"
  by (auto simp: unrolled_def on_update_players_def split: option.splits if_splits slot.splits json.splits)

lemma unrolled_start_state:
  "unrolled s \<Longrightarrow> on_start_state parse rid msg s = Inr (s', out) \<Longrightarrow> unrolled s'"
  by (auto simp: unrolled_def on_start_state_def split: option.splits if_splits slot.splits json.splits)

lemma unrolled_chat:
  "unrolled s \<Longrightarrow> on_chat rid msg s = Inr (s', out) \<Longrightarrow> unrolled s'"
  by (auto simp: unrolled_def on_chat_def Let_def split: if_splits slot.splits chat_msg.splits)

lemma unrolled_disconnect:
  "unrolled s \<Longrightarrow> on_disconnect sid s = Inr (s', out) \<Longrightarrow> unrolled s'"
  by (auto simp: unrolled_def on_disconnect_def announce_def Let_def
           split: option.splits slot.splits sum.splits prod.splits)

lemma unrolled_eviction:
  "unrolled s \<Longrightarrow> eviction_task t s = Inr (s', out) \<Longrightarrow> unrolled s'"
  by (auto simp: unrolled_def eviction_task_def announce_def rooms_delete_def Let_def
           split: option.splits slot.splits sum.splits prod.splits if_splits)

lemma unrolled_step:
  "unrolled s \<Longrightarrow> step parse e s = Inr (s', out) \<Longrightarrow> unrolled s'"
proof (cases e)
  case (Disconnect sid)
  assume "unrolled s" "step parse e s = Inr (s', out)"
  then show ?thesis
    using unrolled_disconnect [of "s\<lparr>subs := {m \<in> subs s. fst m \<noteq> sid}\<rparr>" sid s' out] Disconnect
    by (simp add: unrolled_def)
next
  case Timeout
  assume "unrolled s" "step parse e s = Inr (s', out)"
  then show ?thesis
    using Timeout
    by (cases "timers s") (auto simp: unrolled_def dest!: unrolled_eviction [unfolded unrolled_def, rotated])
qed (auto simp: on_update_turn_def on_update_dice_def
       dest: unrolled_join unrolled_update_players unrolled_start_state unrolled_chat)

text \<open>
  Claim C9.  update-turn and update-dice leave the state exactly as it was and only
  forward the payload as received.  No handler assigns \<open>currentTurn\<close> or \<open>dice\<close>, so in
  every state the server reaches each room has the turn 0 and the dice (-1, -1) it was
  created with, and the broadcast of a later join-room reports these values, whatever
  update-turn and update-dice events came before.
\<close>

theorem turn_and_dice_never_stored:
  "on_update_turn rid msg s = Inr (s, [Emit (To_room rid) ''update-turn'' (Raw msg)])
   \<and> on_update_dice rid msg s = Inr (s, [Emit (To_room rid) ''update-dice'' (Raw msg)])
   \<and> (run parse es init = Inr (s1, out) \<longrightarrow>
        (\<forall>a. currentTurn (heap s1 a) = 0 \<and> dice (heap s1 a) = (-1, -1)))
   \<and> (run parse es init = Inr (s1, out) \<and> on_join_room sid rid' claim s1 = Inr (s2, out')
        \<and> out' \<noteq> [] \<and> out' \<noteq> [Emit (To_socket sid) ''name-taken'' (Flag True)] \<longrightarrow>
        (\<exists>r. out' = [Emit (To_room rid') ''joined-room'' (Json_room r),
                        Emit (To_room rid') ''update-players'' (Json_players (players r)),
                        Emit (To_room rid') ''update-turn'' (Json_turn 0),
                        Emit (To_room rid') ''update-dice'' (Json_dice (-1, -1)),
                        Emit (To_room rid') ''update-chat'' (Json_chat (chat r))]
              \<and> currentTurn r = 0 \<and> dice r = (-1, -1)))"
proof -
  have start: "unrolled init"
    by (simp add: unrolled_def init_def empty_room_def)
  have reach: "unrolled s1" if "run parse es init = Inr (s1, out)"
    using run_invariant [of unrolled parse init es s1 out] unrolled_step start that by blast
  have later: "\<exists>r. out' = [Emit (To_room rid') ''joined-room'' (Json_room r),
                        Emit (To_room rid') ''update-players'' (Json_players (players r)),
                        Emit (To_room rid') ''update-turn'' (Json_turn 0),
                        Emit (To_room rid') ''update-dice'' (Json_dice (-1, -1)),
                        Emit (To_room rid') ''update-chat'' (Json_chat (chat r))]
              \<and> currentTurn r = 0 \<and> dice r = (-1, -1)"
    if run: "run parse es init = Inr (s1, out)"
      and join: "on_join_room sid rid' claim s1 = Inr (s2, out')"
      and some: "out' \<noteq> []" "out' \<noteq> [Emit (To_socket sid) ''name-taken'' (Flag True)]"
  proof -
    from unrolled_join [OF reach [OF run] join] have after: "unrolled s2" .
    from join_output [OF join] some obtain a where "out' = room_broadcast rid' (heap s2 a)"
      by blast
    with after show ?thesis
      by (auto simp: room_broadcast_def unrolled_def)
  qed
  show ?thesis
    using reach later
    by (simp add: on_update_turn_def on_update_dice_def unrolled_def)
qed

theorem turn_and_dice_never_stored_witness:
  "on_update_turn (ascii ''ABC123'') (ascii ''5'') lobby =
     Inr (lobby, [Emit (To_room (ascii ''ABC123'')) ''update-turn'' (Raw (ascii ''5''))])
   \<and> (\<forall>a. currentTurn (heap lobby a) = 0 \<and> dice (heap lobby a) = (-1, -1))
   \<and> (\<exists>s2 r. on_join_room (ascii ''s2'') (ascii ''ABC123'') (Some (newcomer ''Bob'' ''2'')) lobby =
          Inr (s2, [Emit (To_room (ascii ''ABC123'')) ''joined-room'' (Json_room r),
                    Emit (To_room (ascii ''ABC123'')) ''update-players'' (Json_players (players r)),
                    Emit (To_room (ascii ''ABC123'')) ''update-turn'' (Json_turn 0),
                    Emit (To_room (ascii ''ABC123'')) ''update-dice'' (Json_dice (-1, -1)),
                    Emit (To_room (ascii ''ABC123'')) ''update-chat'' (Json_chat (chat r))]))"
proof -
  let ?es = "[Join_room (ascii ''s1'') (ascii ''ABC123'') (Some (newcomer ''Alice'' ''1'')),
              Update_turn (ascii ''ABC123'') (ascii ''5''),
              Update_dice (ascii ''ABC123'') (ascii ''[3,4]'')]"
  obtain out where run: "run toy_parse ?es init = Inr (lobby, out)"
    by (simp add: example_defs handler_defs)
  obtain s2 out' where join:
    "on_join_room (ascii ''s2'') (ascii ''ABC123'') (Some (newcomer ''Bob'' ''2'')) lobby = Inr (s2, out')"
    and some: "out' \<noteq> []" "out' \<noteq> [Emit (To_socket (ascii ''s2'')) ''name-taken'' (Flag True)]"
    by (simp add: example_defs handler_defs)
  show ?thesis
    using turn_and_dice_never_stored [of "ascii ''ABC123''" "ascii ''5''" lobby toy_parse ?es lobby out
        "ascii ''s2''" "ascii ''ABC123''" "Some (newcomer ''Bob'' ''2'')" s2 out'] run join some
    by auto
qed

subsection \<open>Symbols\<close>

lemma distinct_possibleSymbols: "distinct possibleSymbols"
  by (simp add: possibleSymbols_def)

lemma length_possibleSymbols: "length possibleSymbols = 11"
  by (simp add: possibleSymbols_def)

lemma find_first_unused:
  "distinct xs \<Longrightarrow> k < length xs \<Longrightarrow> find (\<lambda>x. x \<notin> set (take k xs)) xs = Some (xs ! k)"
proof (induction xs arbitrary: k)
  case Nil
  then show ?case by simp
next
  case (Cons x xs)
  show ?case
  proof (cases k)
    case 0
    then show ?thesis by simp
  next
    case (Suc j)
    with Cons.prems have j: "j < length xs" and fresh: "x \<notin> set xs" and d: "distinct xs"
      by auto
    have "find (\<lambda>y. y \<notin> insert x (set (take j xs))) xs = find (\<lambda>y. y \<notin> set (take j xs)) xs"
      using fresh by (intro find_cong) auto
    with Cons.IH [OF d j] Suc show ?thesis
      by simp
  qed
qed

lemma pick_symbol_next:
  assumes "map symbol ps = take (length ps) possibleSymbols" and "length ps < 11"
  shows "pick_symbol ps = possibleSymbols ! length ps"
  using find_first_unused [OF distinct_possibleSymbols, of "length ps"] assms
  by (simp add: pick_symbol_def length_possibleSymbols)

lemma pick_symbol_exhausted:
  assumes "set possibleSymbols \<subseteq> symbol ` set ps"
  shows "pick_symbol ps = [0xD83D, 0xDC07]"
proof -
  have "find (\<lambda>x. x \<notin> set (map symbol ps)) possibleSymbols = None"
    using assms by (auto simp: find_None_iff)
  then show ?thesis
    by (simp add: pick_symbol_def)
qed

lemma pick_symbol_first_free:
  assumes "\<not> set possibleSymbols \<subseteq> symbol ` set ps"
  shows "\<exists>k < 11. pick_symbol ps = possibleSymbols ! k \<and> pick_symbol ps \<notin> symbol ` set ps
           \<and> (\<forall>j < k. possibleSymbols ! j \<in> symbol ` set ps)"
proof -
  let ?unused = "\<lambda>x. x \<notin> set (map symbol ps)"
  from assms obtain x where found: "find ?unused possibleSymbols = Some x"
    by (cases "find ?unused possibleSymbols") (auto simp: find_None_iff)
  then have pick: "pick_symbol ps = x"
    by (simp add: pick_symbol_def)
  from found obtain k where "k < length possibleSymbols" "?unused (possibleSymbols ! k)"
    "x = possibleSymbols ! k" "\<forall>j < k. \<not> ?unused (possibleSymbols ! j)"
    unfolding find_Some_iff by blast
  then show ?thesis
    unfolding pick by (auto simp: length_possibleSymbols)
qed

lemma joins_run:
  assumes "rid \<noteq> []" and "rooms_get s rid = Room a"
    and "map symbol (players (heap s a)) = take (length (players (heap s a))) possibleSymbols"
    and "length (players (heap s a)) + length cs \<le> 11"
    and "distinct (map id_player (players (heap s a)) @ map (id_player \<circ> snd) cs)"
    and "distinct (map name (players (heap s a)) @ map (name \<circ> snd) cs)"
  shows "\<exists>s' out. run parse (joins rid cs) s = Inr (s', out) \<and> rooms_get s' rid = Room a
           \<and> players (heap s' a) =
               players (heap s a) @ map (seat rid) (enumerate (length (players (heap s a))) cs)"
  using assms(2-)
proof (induction cs arbitrary: s)
  case Nil
  then show ?case by (simp add: joins_def)
next
  case (Cons x cs)
  obtain sid c where x: "x = (sid, c)"
    by (cases x)
  let ?ps = "players (heap s a)"
  let ?p = "c\<lparr>socketID := sid, roomID := Some rid, symbol := pick_symbol ?ps\<rparr>"
  let ?s1 = "s\<lparr>subs := insert (sid, rid) (subs s),
               heap := (heap s)(a := (heap s a)\<lparr>players := ?ps @ [?p]\<rparr>)\<rparr>"
  from Cons.prems x have fresh: "name c \<notin> name ` set ?ps" "id_player c \<notin> id_player ` set ?ps"
    by auto
  from Cons.prems(3) have few: "length ?ps < 11"
    by simp
  have sym: "pick_symbol ?ps = possibleSymbols ! length ?ps"
    using pick_symbol_next [OF Cons.prems(2) few] .
  have step: "on_join_room sid rid (Some c) s = Inr (?s1, room_broadcast rid ((heap s a)\<lparr>players := ?ps @ [?p]\<rparr>))"
    using join_new_player [OF assms(1) Cons.prems(1) fresh] .
  have room1: "rooms_get ?s1 rid = Room a"
    using Cons.prems(1) by (simp add: rooms_get_def)
  have ps1: "players (heap ?s1 a) = ?ps @ [?p]"
    by simp
  have sym1: "map symbol (players (heap ?s1 a)) = take (length (players (heap ?s1 a))) possibleSymbols"
    using Cons.prems(2) few by (simp add: sym take_Suc_conv_app_nth length_possibleSymbols)
  have len1: "length (players (heap ?s1 a)) + length cs \<le> 11"
    using Cons.prems(3) by simp
  have ids1: "distinct (map id_player (players (heap ?s1 a)) @ map (id_player \<circ> snd) cs)"
    using Cons.prems(4) x by (auto simp: comp_def)
  have names1: "distinct (map name (players (heap ?s1 a)) @ map (name \<circ> snd) cs)"
    using Cons.prems(5) x by (auto simp: comp_def)
  from Cons.IH [OF room1 sym1 len1 ids1 names1]
  obtain s' out where rest: "run parse (joins rid cs) ?s1 = Inr (s', out)"
    and room': "rooms_get s' rid = Room a"
    and ps': "players (heap s' a) =
        players (heap ?s1 a) @ map (seat rid) (enumerate (length (players (heap ?s1 a))) cs)"
    by blast
  have "run parse (joins rid (x # cs)) s =
      Inr (s', room_broadcast rid ((heap s a)\<lparr>players := ?ps @ [?p]\<rparr>) @ out)"
    using step rest by (simp add: joins_def x)
  moreover have "players (heap s' a) = ?ps @ map (seat rid) (enumerate (length ?ps) (x # cs))"
    using ps' by (simp add: x seat_def sym)
  ultimately show ?case
    using room' by blast
qed

lemma symbols_of_seats:
  "n + length cs \<le> length possibleSymbols \<Longrightarrow>
   map symbol (map (seat rid) (enumerate n cs)) = take (length cs) (drop n possibleSymbols)"
proof (induction cs arbitrary: n)
  case Nil
  then show ?case by simp
next
  case (Cons x cs)
  obtain sid c where x: "x = (sid, c)"
    by (cases x)
  from Cons.prems have n: "n < length possibleSymbols" and rest: "Suc n + length cs \<le> length possibleSymbols"
    by simp_all
  from Cons.IH [OF rest] Cons_nth_drop_Suc [OF n, symmetric] show ?case
    by (simp add: x seat_def)
qed

text \<open>
  Claim C3, as stated, fails from the twelfth player on: twelve claims with pairwise
  distinct ids and names join a new room; the first eleven get the eleven symbols in
  order and the twelfth gets the first symbol again.
\<close>

theorem twelfth_symbol_counterexample:
  "distinct (map (id_player \<circ> snd) twelve)
   \<and> map_option (\<lambda>r. map symbol (players r))
        (final_room (run toy_parse (joins (ascii ''ABC123'') twelve) init) (ascii ''ABC123''))
      = Some (possibleSymbols @ [[0xD83D, 0xDC07]])
   \<and> \<not> distinct (possibleSymbols @ [[0xD83D, 0xDC07]])"
  by (simp add: twelve_def joins_def final_room_def example_defs handler_defs)

text \<open>
  Claim C3, amended.  For every sequence of at most eleven successful join-room events
  with pairwise distinct stable ids into a newly created room, the players of the room
  have pairwise distinct symbols drawn from the eleven-symbol alphabet, the k-th player
  holding the k-th symbol.  In general the symbol given to a new player is the first
  symbol of the alphabet, in its fixed order, that no player of the room uses, when there
  is one, and the first symbol of the alphabet when all eleven are in use.
\<close>

theorem symbols_first_available:
  assumes "rid \<noteq> []" and "rooms_get s rid = Absent"
    and "cs \<noteq> []" and "length cs \<le> 11"
    and "distinct (map (id_player \<circ> snd) cs)" and "distinct (map (name \<circ> snd) cs)"
  shows "(\<exists>s' out a. run parse (joins rid cs) s = Inr (s', out) \<and> rooms_get s' rid = Room a
            \<and> players (heap s' a) = map (seat rid) (enumerate 0 cs)
            \<and> map symbol (players (heap s' a)) = take (length cs) possibleSymbols
            \<and> distinct (map symbol (players (heap s' a)))
            \<and> set (map symbol (players (heap s' a))) \<subseteq> set possibleSymbols)
       \<and> (if set possibleSymbols \<subseteq> symbol ` set ps
            then pick_symbol ps = [0xD83D, 0xDC07]
            else \<exists>k < 11. pick_symbol ps = possibleSymbols ! k \<and> pick_symbol ps \<notin> symbol ` set ps
                   \<and> (\<forall>j < k. possibleSymbols ! j \<in> symbol ` set ps))
       \<and> (rooms_get s0 rid = Room a0 \<and> name c \<notin> name ` set (players (heap s0 a0))
              \<and> id_player c \<notin> id_player ` set (players (heap s0 a0)) \<longrightarrow>
            (\<exists>s1 out1. on_join_room sid rid (Some c) s0 = Inr (s1, out1)
               \<and> players (heap s1 a0) = players (heap s0 a0) @
                     [c\<lparr>socketID := sid, roomID := Some rid,
                        symbol := pick_symbol (players (heap s0 a0))\<rparr>]))"
proof -
  obtain sid0 c0 cs' where cs: "cs = (sid0, c0) # cs'"
    using assms(3) by (cases cs) auto
  let ?a = "next_addr s"
  let ?p0 = "c0\<lparr>socketID := sid0, roomID := Some rid, symbol := [0xD83D, 0xDC07]\<rparr>"
  let ?r0 = "\<lparr>players = [?p0], currentTurn = 0, dice = (-1, -1), started = False, chat = []\<rparr>"
  let ?s1 = "s\<lparr>rooms := rooms s @ [(rid, ?a)], heap := (heap s)(?a := ?r0),
               next_addr := Suc ?a, subs := insert (sid0, rid) (subs s)\<rparr>"
  have first: "on_join_room sid0 rid (Some c0) s = Inr (?s1, room_broadcast rid ?r0)"
    using join_absent [OF assms(1,2)] .
  from assms(2) have "map_of (rooms s) rid = None"
    by (simp add: rooms_get_def split: option.splits)
  then have room1: "rooms_get ?s1 rid = Room ?a"
    by (simp add: rooms_get_def map_of_snoc_fresh del: map_of_append)
  have ps1: "players (heap ?s1 ?a) = [?p0]"
    by simp
  have rabbit: "possibleSymbols ! 0 = [0xD83D, 0xDC07]"
    by (simp add: possibleSymbols_def)
  have sym1: "map symbol (players (heap ?s1 ?a)) = take (length (players (heap ?s1 ?a))) possibleSymbols"
    by (simp add: possibleSymbols_def)
  have len1: "length (players (heap ?s1 ?a)) + length cs' \<le> 11"
    using assms(4) by (simp add: cs)
  have ids1: "distinct (map id_player (players (heap ?s1 ?a)) @ map (id_player \<circ> snd) cs')"
    using assms(5) by (simp add: cs)
  have names1: "distinct (map name (players (heap ?s1 ?a)) @ map (name \<circ> snd) cs')"
    using assms(6) by (simp add: cs)
  from joins_run [OF assms(1) room1 sym1 len1 ids1 names1, of parse]
  obtain s' out where rest: "run parse (joins rid cs') ?s1 = Inr (s', out)"
    and room': "rooms_get s' rid = Room ?a"
    and ps': "players (heap s' ?a) = [?p0] @ map (seat rid) (enumerate 1 cs')"
    by auto
  have run: "run parse (joins rid cs) s = Inr (s', room_broadcast rid ?r0 @ out)"
    using first rest by (simp add: joins_def cs)
  have seats: "players (heap s' ?a) = map (seat rid) (enumerate 0 cs)"
    using ps' by (simp add: cs seat_def rabbit)
  have symbols: "map symbol (players (heap s' ?a)) = take (length cs) possibleSymbols"
    using symbols_of_seats [of 0 cs rid] assms(4) by (simp add: seats length_possibleSymbols)
  have "distinct (map symbol (players (heap s' ?a)))"
    unfolding symbols using distinct_possibleSymbols by (rule distinct_take)
  moreover have "set (map symbol (players (heap s' ?a))) \<subseteq> set possibleSymbols"
    unfolding symbols by (rule set_take_subset)
  ultimately have part1: "\<exists>s' out a. run parse (joins rid cs) s = Inr (s', out) \<and> rooms_get s' rid = Room a
            \<and> players (heap s' a) = map (seat rid) (enumerate 0 cs)
            \<and> map symbol (players (heap s' a)) = take (length cs) possibleSymbols
            \<and> distinct (map symbol (players (heap s' a)))
            \<and> set (map symbol (players (heap s' a))) \<subseteq> set possibleSymbols"
    using run room' seats symbols by blast
  have part2: "if set possibleSymbols \<subseteq> symbol ` set ps
            then pick_symbol ps = [0xD83D, 0xDC07]
            else \<exists>k < 11. pick_symbol ps = possibleSymbols ! k \<and> pick_symbol ps \<notin> symbol ` set ps
                   \<and> (\<forall>j < k. possibleSymbols ! j \<in> symbol ` set ps)"
    using pick_symbol_exhausted [of ps] pick_symbol_first_free [of ps] by simp
  have part3: "\<exists>s1 out1. on_join_room sid rid (Some c) s0 = Inr (s1, out1)
               \<and> players (heap s1 a0) = players (heap s0 a0) @
                     [c\<lparr>socketID := sid, roomID := Some rid,
                        symbol := pick_symbol (players (heap s0 a0))\<rparr>]"
    if "rooms_get s0 rid = Room a0" "name c \<notin> name ` set (players (heap s0 a0))"
      "id_player c \<notin> id_player ` set (players (heap s0 a0))"
    using join_new_player [OF assms(1) that, of sid] by simp
  from part1 part2 part3 show ?thesis
    by blast
qed

theorem symbols_first_available_witness:
  "(\<exists>s' out a.
      run toy_parse (joins (ascii ''ABC123'')
        [(ascii ''s1'', newcomer ''Alice'' ''1''), (ascii ''s2'', newcomer ''Bob'' ''2'')]) init = Inr (s', out)
      \<and> rooms_get s' (ascii ''ABC123'') = Room a
      \<and> map symbol (players (heap s' a)) = [[0xD83D, 0xDC07], [0xD83D, 0xDC04]])
   \<and> (\<exists>s1 out1.
        on_join_room (ascii ''s2'') (ascii ''ABC123'') (Some (newcomer ''Bob'' ''2'')) lobby = Inr (s1, out1)
        \<and> map symbol (players (heap s1 0)) = [[0xD83D, 0xDC07], [0xD83D, 0xDC04]])"
proof -
  let ?cs = "[(ascii ''s1'', newcomer ''Alice'' ''1''), (ascii ''s2'', newcomer ''Bob'' ''2'')]"
  have key: "ascii ''ABC123'' \<noteq> []"
    by (simp add: ascii_def)
  have absent: "rooms_get init (ascii ''ABC123'') = Absent"
    by (simp add: example_defs rooms_get_def)
  have some: "?cs \<noteq> []" and few: "length ?cs \<le> 11"
    by simp_all
  have ids: "distinct (map (id_player \<circ> snd) ?cs)" and names: "distinct (map (name \<circ> snd) ?cs)"
    by (simp_all add: example_defs)
  have room: "rooms_get lobby (ascii ''ABC123'') = Room 0"
    by (simp add: example_defs rooms_get_def)
  have fresh: "name (newcomer ''Bob'' ''2'') \<notin> name ` set (players (heap lobby 0))"
    "id_player (newcomer ''Bob'' ''2'') \<notin> id_player ` set (players (heap lobby 0))"
    by (simp_all add: example_defs)
  have two: "take (length ?cs) possibleSymbols = [[0xD83D, 0xDC07], [0xD83D, 0xDC04]]"
    by (simp add: possibleSymbols_def)
  have next_symbol: "map symbol (players (heap lobby 0)) @ [pick_symbol (players (heap lobby 0))]
      = [[0xD83D, 0xDC07], [0xD83D, 0xDC04]]"
    by (simp add: example_defs pick_symbol_def)
  note inst = symbols_first_available [OF key absent some few ids names,
      of toy_parse "[]" lobby 0 "newcomer ''Bob'' ''2''" "ascii ''s2''"]
  from inst obtain s' out a where
    "run toy_parse (joins (ascii ''ABC123'') ?cs) init = Inr (s', out)"
    "rooms_get s' (ascii ''ABC123'') = Room a"
    "map symbol (players (heap s' a)) = take (length ?cs) possibleSymbols"
    by blast
  moreover from inst room fresh obtain s1 out1 where
    "on_join_room (ascii ''s2'') (ascii ''ABC123'') (Some (newcomer ''Bob'' ''2'')) lobby = Inr (s1, out1)"
    "players (heap s1 0) = players (heap lobby 0) @
       [(newcomer ''Bob'' ''2'')\<lparr>socketID := ascii ''s2'', roomID := Some (ascii ''ABC123''),
          symbol := pick_symbol (players (heap lobby 0))\<rparr>]"
    by blast
  ultimately show ?thesis
    using two next_symbol by (intro conjI exI) (assumption | simp)+
qed

subsection \<open>Eviction after a disconnect\<close>

text \<open>
  The registry stays well formed in every run, and a disconnect that nothing follows
  before its timer fires removes exactly the player it marked, deleting the room when
  that player was the last.
\<close>

lemma rooms_announce:
  "announce rid l s = Inr (s', out) \<Longrightarrow> rooms s' = rooms s"
  by (auto simp: announce_def Let_def split: slot.splits)

lemma registry_ok_same:
  "rooms s' = rooms s \<Longrightarrow> registry_ok s' = registry_ok s"
  by (simp add: registry_ok_def)

lemma rooms_update_players:
  "on_update_players parse rid msg s = Inr (s', out) \<Longrightarrow> rooms s' = rooms s"
  by (auto simp: on_update_players_def split: option.splits if_splits slot.splits json.splits)

lemma rooms_start_state:
  "on_start_state parse rid msg s = Inr (s', out) \<Longrightarrow> rooms s' = rooms s"
  by (auto simp: on_start_state_def split: option.splits if_splits slot.splits json.splits)

lemma rooms_chat:
  "on_chat rid msg s = Inr (s', out) \<Longrightarrow> rooms s' = rooms s"
  by (auto simp: on_chat_def Let_def split: if_splits slot.splits chat_msg.splits)

lemma registry_ok_join:
  assumes "registry_ok s" and "on_join_room sid rid claim s = Inr (s', out)"
  shows "registry_ok s'"
proof (cases "rooms_get s rid = Absent \<and> rid \<noteq> [] \<and> claim \<noteq> None")
  case True
  then obtain c where c: "claim = Some c"
    by auto
  from True have fresh: "rid \<notin> fst ` set (rooms s)" "rid \<notin> set object_prototype_keys"
    by (auto simp: rooms_get_def map_of_eq_None_iff split: option.splits if_splits)
  from join_absent [of rid s sid c] True c assms(2)
  have "rooms s' = rooms s @ [(rid, next_addr s)]"
    by auto
  with assms(1) fresh show ?thesis
    by (simp add: registry_ok_def)
next
  case False
  with assms(2) have "rooms s' = rooms s"
    by (auto simp: on_join_room_def rooms_get_def Let_def split: option.splits if_splits)
  with assms(1) registry_ok_same [of s' s] show ?thesis
    by simp
qed

lemma registry_ok_disconnect:
  assumes "registry_ok s" and "on_disconnect sid s = Inr (s', out)"
  shows "registry_ok s'"
proof (cases "scan_rooms sid (heap s) (for_in_order (rooms s))")
  case None
  from assms on_disconnect_miss [OF None] show ?thesis by simp
next
  case (Some hit)
  obtain rid a i where hit: "hit = (rid, a, i)"
    by (cases hit)
  from assms(2) on_disconnect_hit [OF Some [unfolded hit]]
  obtain s1 where "announce rid (waiting_note (name (players (heap s a) ! i))) s = Inr (s1, out)"
    and "rooms s' = rooms s1"
    by (auto split: sum.splits)
  with rooms_announce [of rid _ s s1 out] have "rooms s' = rooms s"
    by simp
  with assms(1) registry_ok_same [of s' s] show ?thesis
    by simp
qed

lemma registry_ok_delete: "registry_ok s \<Longrightarrow> registry_ok (rooms_delete rid s)"
proof -
  have "set (map fst (filter (\<lambda>(k, _). k \<noteq> rid) (rooms s))) \<subseteq> set (map fst (rooms s))"
    by auto
  then show "registry_ok s \<Longrightarrow> registry_ok (rooms_delete rid s)"
    unfolding registry_ok_def rooms_delete_def
    by (auto simp: distinct_map_filter)
qed

lemma registry_ok_eviction:
  assumes "registry_ok s" and "eviction_task t s = Inr (s', out)"
  shows "registry_ok s'"
proof (cases "findIndex (\<lambda>p. socketID p = t_socket t) (players (heap s (t_room t)))")
  case None
  with assms eviction_task_skip [of t s] show ?thesis by simp
next
  case (Some i)
  show ?thesis
  proof (cases "disconnected (players (heap s (t_room t)) ! i) = Some True")
    case False
    with Some assms eviction_task_skip [of t s] show ?thesis by simp
  next
    case True
    from assms(2) eviction_task_fire [OF Some True]
    obtain s2 out' where later: "announce (t_roomID t) (gone_note (t_name t)) s2 = Inr (s', out')"
      and "rooms s2 = rooms s \<or> rooms s2 = rooms (rooms_delete (t_roomID t) s)"
      by (auto simp: rooms_delete_def split: sum.splits if_splits)
    then have "rooms s' = rooms s \<or> rooms s' = rooms (rooms_delete (t_roomID t) s)"
      using rooms_announce [OF later] by simp
    with assms(1) registry_ok_delete [of s "t_roomID t"]
      registry_ok_same [of s' s] registry_ok_same [of s' "rooms_delete (t_roomID t) s"]
    show ?thesis
      by blast
  qed
qed

lemma registry_ok_step:
  assumes "registry_ok s" and "step parse e s = Inr (s', out)"
  shows "registry_ok s'"
proof (cases e)
  case (Join_room sid rid claim)
  with assms registry_ok_join show ?thesis by simp
next
  case (Update_players rid msg)
  with assms rooms_update_players [of parse rid msg s s' out] registry_ok_same [of s' s]
  show ?thesis by simp
next
  case (Update_turn rid msg)
  with assms show ?thesis by (auto simp: on_update_turn_def)
next
  case (Update_dice rid msg)
  with assms show ?thesis by (auto simp: on_update_dice_def)
next
  case (Start_state rid msg)
  with assms rooms_start_state [of parse rid msg s s' out] registry_ok_same [of s' s]
  show ?thesis by simp
next
  case (Chat rid msg)
  with assms rooms_chat [of rid msg s s' out] registry_ok_same [of s' s]
  show ?thesis by simp
next
  case (Disconnect sid)
  let ?s0 = "s\<lparr>subs := {m \<in> subs s. fst m \<noteq> sid}\<rparr>"
  from assms(1) registry_ok_same [of ?s0 s] have "registry_ok ?s0"
    by simp
  with assms(2) Disconnect registry_ok_disconnect [of ?s0 sid s' out]
  show ?thesis by simp
next
  case Timeout
  show ?thesis
  proof (cases "timers s")
    case Nil
    with assms Timeout show ?thesis by simp
  next
    case (Cons t ts)
    from assms(1) registry_ok_same [of "s\<lparr>timers := ts\<rparr>" s] have "registry_ok (s\<lparr>timers := ts\<rparr>)"
      by simp
    with assms(2) Timeout Cons registry_ok_eviction [of "s\<lparr>timers := ts\<rparr>" t s' out]
    show ?thesis by simp
  qed
qed

lemma registry_ok_run:
  assumes "run parse es init = Inr (s, out)"
  shows "registry_ok s"
proof -
  have "registry_ok init"
    by (simp add: registry_ok_def init_def)
  with run_invariant [of registry_ok parse init es s out] registry_ok_step assms show ?thesis
    by blast
qed

lemma findIndex_Some:
  "findIndex P xs = Some i \<Longrightarrow> i < length xs \<and> P (xs ! i)"
  by (induction xs arbitrary: i) (auto split: if_splits option.splits)

lemma findIndex_update:
  "findIndex P xs = Some i \<Longrightarrow> P x \<Longrightarrow> findIndex P (xs[i := x]) = Some i"
  by (induction xs arbitrary: i) (auto split: if_splits option.splits)

lemma splice1_update: "splice1 i (xs[i := x]) = splice1 i xs"
  by (simp add: splice1_def)

lemma scan_rooms_Some:
  "scan_rooms sid h rs = Some (rid, a, i) \<Longrightarrow>
     (rid, a) \<in> set rs \<and> findIndex (\<lambda>p. socketID p = sid) (players (h a)) = Some i"
  by (induction rs) (auto split: option.splits)

lemma set_for_in_order: "set (for_in_order rs) = set rs"
  by (auto simp: for_in_order_def)

lemma rooms_get_member:
  assumes "registry_ok s" and "(rid, a) \<in> set (rooms s)"
  shows "rooms_get s rid = Room a" and "rid \<notin> set object_prototype_keys"
proof -
  from assms have "map_of (rooms s) rid = Some a"
    by (simp add: registry_ok_def)
  then show "rooms_get s rid = Room a"
    by (simp add: rooms_get_def)
  from assms show "rid \<notin> set object_prototype_keys"
    by (force simp: registry_ok_def)
qed

lemma rooms_get_deleted:
  "rid \<notin> set object_prototype_keys \<Longrightarrow> rooms_get (rooms_delete rid s) rid = Absent"
proof -
  have "map_of (filter (\<lambda>(k, _). k \<noteq> rid) (rooms s)) rid = None"
    by (induction "rooms s" arbitrary: s) (auto simp: map_of_eq_None_iff)
  then show "rid \<notin> set object_prototype_keys \<Longrightarrow> rooms_get (rooms_delete rid s) rid = Absent"
    by (simp add: rooms_get_def rooms_delete_def)
qed

lemma unanswered_disconnect_evicts:
  assumes ok: "registry_ok s" and quiet: "timers s = []"
    and hit: "scan_rooms sid (heap s) (for_in_order (rooms s)) = Some (rid, a, i)"
  shows "\<exists>s2 out. run parse [Disconnect sid, Timeout] s = Inr (s2, out)
           \<and> players (heap s2 a) = splice1 i (players (heap s a))
           \<and> rooms_get s2 rid = (if splice1 i (players (heap s a)) = [] then Absent else Room a)"
proof -
  let ?ps = "players (heap s a)"
  let ?note = "waiting_note (name (?ps ! i))"
  let ?s0 = "s\<lparr>subs := {m \<in> subs s. fst m \<noteq> sid}\<rparr>"
  let ?r1 = "(heap s a)\<lparr>chat := chat (heap s a) @ [?note],
                       players := ?ps[i := (?ps ! i)\<lparr>disconnected := Some True\<rparr>]\<rparr>"
  let ?t = "\<lparr>t_socket = sid, t_room = a, t_roomID = rid, t_name = name (?ps ! i)\<rparr>"
  let ?s1 = "?s0\<lparr>heap := (heap s)(a := ?r1), timers := [?t]\<rparr>"
  let ?out1 = "[Emit (To_room rid) ''chat'' (Json_chat (chat (heap s a) @ [?note]))]"
  from scan_rooms_Some [OF hit] have member: "(rid, a) \<in> set (rooms s)"
    and index: "findIndex (\<lambda>p. socketID p = sid) ?ps = Some i"
    by (simp_all add: set_for_in_order)
  from findIndex_Some [OF index] have i: "i < length ?ps" and owner: "socketID (?ps ! i) = sid"
    by simp_all
  from rooms_get_member [OF ok member] have room: "rooms_get s rid = Room a"
    and plain: "rid \<notin> set object_prototype_keys" .
  have room0: "rooms_get ?s0 rid = Room a"
    using room by (simp add: rooms_get_def)
  have "announce rid ?note ?s0 =
      Inr (?s0\<lparr>heap := (heap s)(a := (heap s a)\<lparr>chat := chat (heap s a) @ [?note]\<rparr>)\<rparr>, ?out1)"
    using room0 by (simp add: announce_def Let_def)
  with on_disconnect_hit [of sid ?s0 rid a i] hit quiet
  have first: "step parse (Disconnect sid) s = Inr (?s1, ?out1)"
    by simp
  let ?s1' = "?s1\<lparr>timers := []\<rparr>"
  have index': "findIndex (\<lambda>p. socketID p = t_socket ?t) (players (heap ?s1' (t_room ?t))) = Some i"
    using findIndex_update [OF index, of "(?ps ! i)\<lparr>disconnected := Some True\<rparr>"] owner by simp
  have flag: "disconnected (players (heap ?s1' (t_room ?t)) ! i) = Some True"
    using i by simp
  have rest: "splice1 i (players (heap ?s1' (t_room ?t))) = splice1 i ?ps"
    by (simp add: splice1_update)
  show ?thesis
  proof (cases "splice1 i ?ps = []")
    case True
    let ?s2 = "rooms_delete rid (?s1'\<lparr>heap := (heap ?s1')(a := (heap ?s1' a)\<lparr>players := []\<rparr>)\<rparr>)"
    have gone: "rooms_get ?s2 rid = Absent"
      using rooms_get_deleted [OF plain] .
    then have "announce rid (gone_note (name (?ps ! i))) ?s2 = Inr (?s2, [])"
      by (simp add: announce_def)
    with eviction_task_fire [OF index' flag] True rest
    have "eviction_task ?t ?s1' = Inr (?s2, [Emit (To_room rid) ''update-players'' (Json_players [])])"
      by simp
    then have "step parse Timeout ?s1 = Inr (?s2, [Emit (To_room rid) ''update-players'' (Json_players [])])"
      by simp
    with first have "run parse [Disconnect sid, Timeout] s =
        Inr (?s2, ?out1 @ [Emit (To_room rid) ''update-players'' (Json_players [])])"
      by simp
    moreover have "players (heap ?s2 a) = splice1 i ?ps"
      using True by (simp add: rooms_delete_def)
    ultimately show ?thesis
      using gone True by (intro exI conjI) simp_all
  next
    case False
    let ?r2 = "(heap ?s1' a)\<lparr>players := splice1 i ?ps\<rparr>"
    let ?s2 = "?s1'\<lparr>heap := (heap ?s1')(a := ?r2)\<rparr>"
    let ?r3 = "?r2\<lparr>chat := chat ?r2 @ [gone_note (name (?ps ! i))]\<rparr>"
    let ?s3 = "?s2\<lparr>heap := (heap ?s2)(a := ?r3)\<rparr>"
    have kept: "rooms_get ?s2 rid = Room a"
      using room by (simp add: rooms_get_def)
    then have "announce rid (gone_note (name (?ps ! i))) ?s2 =
        Inr (?s3, [Emit (To_room rid) ''chat'' (Json_chat (chat ?r3))])"
      by (simp add: announce_def Let_def)
    with eviction_task_fire [OF index' flag] False rest
    have "eviction_task ?t ?s1' =
        Inr (?s3, [Emit (To_room rid) ''update-players'' (Json_players (splice1 i ?ps)),
                   Emit (To_room rid) ''chat'' (Json_chat (chat ?r3))])"
      by simp
    then have "step parse Timeout ?s1 =
        Inr (?s3, [Emit (To_room rid) ''update-players'' (Json_players (splice1 i ?ps)),
                   Emit (To_room rid) ''chat'' (Json_chat (chat ?r3))])"
      by simp
    with first have "run parse [Disconnect sid, Timeout] s =
        Inr (?s3, ?out1 @ [Emit (To_room rid) ''update-players'' (Json_players (splice1 i ?ps)),
                   Emit (To_room rid) ''chat'' (Json_chat (chat ?r3))])"
      by simp
    moreover have "players (heap ?s3 a) = splice1 i ?ps"
      by simp
    moreover have "rooms_get ?s3 rid = Room a"
      using room by (simp add: rooms_get_def)
    ultimately show ?thesis
      using False by (intro exI conjI) simp_all
  qed
qed

subsection \<open>Reconnecting\<close>

text \<open>
  Claim C2 (the code departs from it).  Alice joins from connection s1, the connection
  closes, and she joins again with the same stable id from connection s2.  The player
  sequence still has one entry, but the stored record still holds the old connection
  identifier s1 and is still marked disconnected: on the path for a known stable id
  (lemma \<open>join_known_id\<close>) the handler changes no room.
\<close>

theorem reconnect_leaves_record_stale:
  "map_option (\<lambda>r. map (\<lambda>p. (id_player p, socketID p, disconnected p)) (players r))
     (final_room
        (run toy_parse
           [Join_room (ascii ''s1'') (ascii ''ABC123'') (Some (newcomer ''Alice'' ''1'')),
            Disconnect (ascii ''s1''),
            Join_room (ascii ''s2'') (ascii ''ABC123'') (Some (newcomer ''Alice'' ''1''))]
           init)
        (ascii ''ABC123''))
   = Some [(ascii ''1'', ascii ''s1'', Some True)]"
  by (simp add: final_room_def example_defs handler_defs disconnect_defs)

text \<open>
  Claim C1 (the code departs from it).  Bob disconnects and joins again with the same
  stable id before the eviction task fires; the task still removes him, and only Alice
  is left.  When Alice is alone in the room, disconnects and rejoins, the task removes
  her and deletes the room.  The rest of the claim is what the code does (lemma
  \<open>unanswered_disconnect_evicts\<close>).
\<close>

theorem rejoined_player_evicted:
  "map_option (\<lambda>r. map id_player (players r))
     (final_room
        (run toy_parse
           [Join_room (ascii ''s1'') (ascii ''ABC123'') (Some (newcomer ''Alice'' ''1'')),
            Join_room (ascii ''s2'') (ascii ''ABC123'') (Some (newcomer ''Bob'' ''2'')),
            Disconnect (ascii ''s2''),
            Join_room (ascii ''s3'') (ascii ''ABC123'') (Some (newcomer ''Bob'' ''2'')),
            Timeout]
           init)
        (ascii ''ABC123''))
   = Some [ascii ''1'']
   \<and> map_sum id (\<lambda>(s, out). rooms s)
       (run toy_parse
          [Join_room (ascii ''s1'') (ascii ''ABC123'') (Some (newcomer ''Alice'' ''1'')),
           Disconnect (ascii ''s1''),
           Join_room (ascii ''s2'') (ascii ''ABC123'') (Some (newcomer ''Alice'' ''1'')),
           Timeout]
          init)
     = Inr []"
  by (simp add: final_room_def example_defs handler_defs disconnect_defs)

end
